theory Spec2Isabelle
  imports Main "HOL-Library.AList"
begin

section \<open>JSON values and JavaScript objects\<close>

text \<open>
  The server of \<^verbatim>\<open>src/index.js\<close> keeps two JavaScript objects, \<^verbatim>\<open>syncState\<close> and
  \<^verbatim>\<open>connectedBrowsers\<close>, and answers JSON requests with JSON objects. An object is an
  association list in insertion order; \<open>map_of\<close> reads a property (\<open>None\<close> is
  \<^verbatim>\<open>undefined\<close>), \<open>AList.update\<close> assigns one (an existing key keeps its place, a new key
  goes last) and \<open>AList.delete\<close> is \<^verbatim>\<open>delete o[k]\<close>. (JavaScript lists keys that are array
  indices before the others; nothing proved below depends on the order of keys.) Numbers
  are the integers: every number the handlers compute with is a millisecond timestamp or
  a count.
\<close>

datatype json =
  JNull
  | JBool bool
  | JNum int
  | JStr string
  | JArr "json list"
  | JObj "(string \<times> json) list"

type_synonym obj = "(string \<times> json) list"

text \<open>The truth value JavaScript gives a value in \<^verbatim>\<open>if (v)\<close>, \<^verbatim>\<open>!v\<close> and \<^verbatim>\<open>v || d\<close>.\<close>

fun truthy :: "json option \<Rightarrow> bool" where
  "truthy None = False"
| "truthy (Some JNull) = False"
| "truthy (Some (JBool b)) = b"
| "truthy (Some (JNum n)) = (n \<noteq> 0)"
| "truthy (Some (JStr s)) = (s \<noteq> [])"
| "truthy (Some (JArr xs)) = True"
| "truthy (Some (JObj kvs)) = True"

text \<open>\<^verbatim>\<open>v || d\<close> on a value that may be undefined.\<close>

fun js_or :: "json option \<Rightarrow> json \<Rightarrow> json" where
  "js_or None d = d"
| "js_or (Some v) d = (if truthy (Some v) then v else d)"

text \<open>
  The identifiers and timestamps of a request have the types of the interface: an
  identifier is a string or absent, a timestamp a number or absent. \<^verbatim>\<open>if (browserId)\<close> on
  such an identifier, and \<^verbatim>\<open>timestamp || Date.now()\<close> on such a timestamp:
\<close>

fun given :: "string option \<Rightarrow> bool" where
  "given None = False"
| "given (Some s) = (s \<noteq> [])"

fun ts_or_now :: "int option \<Rightarrow> int \<Rightarrow> int" where
  "ts_or_now None now = now"
| "ts_or_now (Some t) now = (if t \<noteq> 0 then t else now)"

text \<open>\<^verbatim>\<open>{...a, ...b}\<close>: the properties of \<open>b\<close> are assigned onto a copy of \<open>a\<close>, in order.\<close>

fun spread :: "('k \<times> 'v) list \<Rightarrow> ('k \<times> 'v) list \<Rightarrow> ('k \<times> 'v) list" where
  "spread a [] = a"
| "spread a ((k, v) # b) = spread (AList.update k v a) b"

text \<open>\<^verbatim>\<open>s.slice(-8)\<close>: the last eight characters, the whole string when it is shorter.\<close>

definition slice8 :: "string \<Rightarrow> string" where
  "slice8 s = drop (length s - 8) s"

text \<open>Decimal rendering of a number, for \<^verbatim>\<open>secondsAgo + 's ago'\<close>.\<close>

definition digit :: "nat \<Rightarrow> char" where
  "digit d = ''0123456789'' ! d"

function show_nat :: "nat \<Rightarrow> string" where
  "show_nat n = (if n < 10 then [digit n] else show_nat (n div 10) @ [digit (n mod 10)])"
  by pat_completeness auto
termination
  by (relation "measure (\<lambda>n. n)") auto

declare show_nat.simps [simp del]

definition show_int :: "int \<Rightarrow> string" where
  "show_int i = (if i < 0 then CHR ''-'' # show_nat (nat (- i)) else show_nat (nat i))"

section \<open>State\<close>

text \<open>
  \<^verbatim>\<open>connectedBrowsers\<close> maps a browser id to \<^verbatim>\<open>{ lastSeen, tf }\<close>; \<^verbatim>\<open>syncState\<close> is one object
  that holds the election fields \<^verbatim>\<open>leaderId\<close> and \<^verbatim>\<open>leaderHeartbeat\<close> beside the payload fields.
\<close>

record browser_info =
  lastSeen :: int
  tf :: json

record server =
  syncState :: obj
  connectedBrowsers :: "(string \<times> browser_info) list"

definition default_syncState :: obj where
  "default_syncState =
     [(''leaderId'', JNull),
      (''leaderHeartbeat'', JNum 0),
      (''currentIndex'', JNum 0),
      (''rotateInterval'', JNum 7),
      (''fetchInterval'', JNum 120),
      (''colLInterval'', JNum 10),
      (''selectedFilters'', JArr [JStr ''Comfortable'']),
      (''filteredData'', JArr []),
      (''alertSettings'', JObj [])]"

definition initial_server :: server where
  "initial_server = \<lparr>syncState = default_syncState, connectedBrowsers = []\<rparr>"

definition BROWSER_TIMEOUT :: int where
  "BROWSER_TIMEOUT = 30000"

definition leaderTimeout :: int where
  "leaderTimeout = 8000"

section \<open>The periodic sweep\<close>

text \<open>
  The \<^verbatim>\<open>setInterval\<close> callback: a loop over the entries \<^verbatim>\<open>Object.entries\<close> returned when the
  sweep started, deleting each stale record and clearing the leadership when the deleted
  record is the leader's. \<open>now\<close> is the reading of \<^verbatim>\<open>Date.now()\<close>. Logging is left out.
\<close>

fun sweep_loop :: "int \<Rightarrow> (string \<times> browser_info) list \<Rightarrow> server \<Rightarrow> server" where
  "sweep_loop now [] s = s"
| "sweep_loop now ((browserId, info) # entries) s =
     sweep_loop now entries
       (if now - lastSeen info > BROWSER_TIMEOUT then
          (let s1 = s\<lparr>connectedBrowsers := AList.delete browserId (connectedBrowsers s)\<rparr>
           in if map_of (syncState s1) ''leaderId'' = Some (JStr browserId)
              then s1\<lparr>syncState :=
                    AList.update ''leaderHeartbeat'' (JNum 0)
                      (AList.update ''leaderId'' JNull (syncState s1))\<rparr>
              else s1)
        else s)"

definition sweep :: "int \<Rightarrow> server \<Rightarrow> server" where
  "sweep now s = sweep_loop now (connectedBrowsers s) s"

section \<open>Helper functions\<close>

record browser_entry =
  b_id :: string
  b_browserId :: string
  b_isLeader :: bool
  b_status :: string
  b_lastSeen :: string
  b_tf :: json

record browser_stats =
  totalBrowsers :: nat
  browsersOnline :: nat
  browsersList :: "browser_entry list"

text \<open>
  \<^verbatim>\<open>Math.round(d / 1000)\<close> rounds to the nearest integer, a half upwards: it is the floor of
  \<open>(d + 500) / 1000\<close>.
\<close>

definition secondsAgo_of :: "int \<Rightarrow> int \<Rightarrow> int" where
  "secondsAgo_of now seen = (now - seen + 500) div 1000"

definition status_of :: "bool \<Rightarrow> int \<Rightarrow> string" where
  "status_of isLeader secondsAgo =
     (if isLeader then ''leader''
      else if secondsAgo > 10 then ''warning''
      else if secondsAgo > 20 then ''offline''
      else ''online'')"

definition browser_row :: "int \<Rightarrow> obj \<Rightarrow> string \<times> browser_info \<Rightarrow> browser_entry" where
  "browser_row now st e =
     (case e of (ident, info) \<Rightarrow>
        let isLeader = (map_of st ''leaderId'' = Some (JStr ident));
            secondsAgo = secondsAgo_of now (lastSeen info)
        in \<lparr>b_id = slice8 ident,
            b_browserId = ident,
            b_isLeader = isLeader,
            b_status = status_of isLeader secondsAgo,
            b_lastSeen = show_int secondsAgo @ ''s ago'',
            b_tf = js_or (Some (tf info)) (JStr ''5'')\<rparr>)"

definition getBrowserStats :: "int \<Rightarrow> server \<Rightarrow> browser_stats" where
  "getBrowserStats now s =
     (let browsers = map (browser_row now (syncState s)) (connectedBrowsers s)
      in \<lparr>totalBrowsers = length browsers,
          browsersOnline = length (filter (\<lambda>b. b_status b \<noteq> ''offline'') browsers),
          browsersList = browsers\<rparr>)"

text \<open>
  \<^verbatim>\<open>connectedBrowsers[browserId] = { lastSeen, tf }\<close> on the plain object
  \<^verbatim>\<open>connectedBrowsers\<close>. For the key \<^verbatim>\<open>__proto__\<close> the assignment runs the setter the object
  inherits from \<^verbatim>\<open>Object.prototype\<close>: it replaces the prototype of \<^verbatim>\<open>connectedBrowsers\<close> and
  adds no own property. The sweep, \<^verbatim>\<open>getBrowserStats\<close> and \<^verbatim>\<open>/health\<close> read own properties
  only (\<^verbatim>\<open>Object.entries\<close>, \<^verbatim>\<open>Object.keys\<close>, \<^verbatim>\<open>delete\<close>), so for them nothing has changed.
  Every other key becomes, or stays, an own property.
\<close>

definition registerBrowser :: "int \<Rightarrow> string \<Rightarrow> json option \<Rightarrow> server \<Rightarrow> server" where
  "registerBrowser now browserId t s =
     (if browserId = ''__proto__'' then s
      else s\<lparr>connectedBrowsers :=
               AList.update browserId \<lparr>lastSeen = now, tf = js_or t (JStr ''5'')\<rparr>
                 (connectedBrowsers s)\<rparr>)"

text \<open>The statistics as the JSON object that is spread into a response.\<close>

definition entry_json :: "browser_entry \<Rightarrow> json" where
  "entry_json b =
     JObj [(''id'', JStr (b_id b)),
           (''browserId'', JStr (b_browserId b)),
           (''isLeader'', JBool (b_isLeader b)),
           (''status'', JStr (b_status b)),
           (''lastSeen'', JStr (b_lastSeen b)),
           (''tf'', b_tf b)]"

definition stats_json :: "browser_stats \<Rightarrow> obj" where
  "stats_json st =
     [(''totalBrowsers'', JNum (int (totalBrowsers st))),
      (''browsersOnline'', JNum (int (browsersOnline st))),
      (''browsersList'', JArr (map entry_json (browsersList st)))]"

section \<open>Endpoints\<close>

text \<open>
  A handler takes the reading \<open>now\<close> of \<^verbatim>\<open>Date.now()\<close> (a handler runs to completion in one
  turn of the event loop, and its readings are taken as one), the fields it destructures
  from the request, and the state; it returns the new state and the response. The fields
  \<^verbatim>\<open>force\<close>, \<^verbatim>\<open>isLeader\<close> and \<^verbatim>\<open>tf\<close> of a body are arbitrary JSON values.
\<close>

record response =
  status_code :: nat
  json_body :: obj

definition ok :: "obj \<Rightarrow> response" where
  "ok b = \<lparr>status_code = 200, json_body = b\<rparr>"

definition browserId_required :: response where
  "browserId_required =
     \<lparr>status_code = 400,
      json_body = [(''success'', JBool False), (''error'', JStr ''browserId required'')]\<rparr>"

text \<open>
  \<^verbatim>\<open>syncState.leaderId ? syncState.leaderId.slice(-8) : 'none'\<close>. The handlers store only
  \<^verbatim>\<open>null\<close> or a string in \<^verbatim>\<open>leaderId\<close>, and only a number in \<^verbatim>\<open>leaderHeartbeat\<close> (lemma
  \<open>consistent_reachable\<close> below); \<open>short_leader\<close> and \<open>js_minus\<close> read these two slots, and
  what JavaScript would do with another kind of value in either place is not modelled.
\<close>

definition short_leader :: "obj \<Rightarrow> string" where
  "short_leader st =
     (if truthy (map_of st ''leaderId'')
      then (case map_of st ''leaderId'' of Some (JStr l) \<Rightarrow> slice8 l | _ \<Rightarrow> ''none'')
      else ''none'')"

text \<open>
  \<^verbatim>\<open>Date.now() - v\<close>, with \<open>None\<close> for \<^verbatim>\<open>NaN\<close>, and \<^verbatim>\<open>d > limit\<close>, which is false on
  \<^verbatim>\<open>NaN\<close>.
\<close>

fun js_minus :: "int \<Rightarrow> json option \<Rightarrow> int option" where
  "js_minus now (Some (JNum n)) = Some (now - n)"
| "js_minus now (Some JNull) = Some now"
| "js_minus now (Some (JBool b)) = Some (now - (if b then 1 else 0))"
| "js_minus now v = None"

fun js_gt :: "int option \<Rightarrow> int \<Rightarrow> bool" where
  "js_gt None limit = False"
| "js_gt (Some d) limit = (d > limit)"

definition get_health :: "server \<Rightarrow> response" where
  "get_health s =
     ok [(''status'', JStr ''ok''),
         (''version'', JStr ''2.2.0''),
         (''browsers'', JNum (int (length (connectedBrowsers s)))),
         (''leader'', JStr (short_leader (syncState s)))]"

definition get_sync_state ::
  "int \<Rightarrow> string option \<Rightarrow> string option \<Rightarrow> server \<Rightarrow> server \<times> response" where
  "get_sync_state now browserId t s =
     (let s1 = (case browserId of
                  None \<Rightarrow> s
                | Some b \<Rightarrow> if b \<noteq> [] then registerBrowser now b (map_option JStr t) s else s);
          browserStats = getBrowserStats now s1
      in (s1, ok (spread (syncState s1) (stats_json browserStats))))"

text \<open>
  \<^verbatim>\<open>POST /sync-state\<close>. The arguments are the three bindings of
  \<^verbatim>\<open>const { leaderId, leaderHeartbeat, ...rest } = req.body\<close>; \<^verbatim>\<open>req.body.tf\<close> is a property of
  \<open>rest\<close>. \<open>state_updates\<close> is the second destructuring, \<open>merge_updates\<close> the assignment
  \<^verbatim>\<open>syncState = { ...syncState, ...stateUpdates }\<close>.
\<close>

definition state_updates :: "obj \<Rightarrow> obj" where
  "state_updates rest = filter (\<lambda>(k, v). k \<noteq> ''leaderId'' \<and> k \<noteq> ''leaderHeartbeat'') rest"

definition merge_updates :: "obj \<Rightarrow> obj \<Rightarrow> obj" where
  "merge_updates st rest = spread st (state_updates rest)"

definition post_sync_state ::
  "int \<Rightarrow> string option \<Rightarrow> int option \<Rightarrow> obj \<Rightarrow> server \<Rightarrow> server \<times> response" where
  "post_sync_state now leaderId leaderHeartbeat rest s =
     (let s1 = (case leaderId of
                  None \<Rightarrow> s
                | Some l \<Rightarrow> if l \<noteq> [] then registerBrowser now l (map_of rest ''tf'') s else s);
          s2 = (case leaderId of
                  None \<Rightarrow> s1
                | Some l \<Rightarrow>
                    if l \<noteq> [] \<and> map_of (syncState s1) ''leaderId'' = Some (JStr l)
                    then s1\<lparr>syncState :=
                           AList.update ''leaderHeartbeat'' (JNum (ts_or_now leaderHeartbeat now))
                             (syncState s1)\<rparr>
                    else s1);
          s3 = s2\<lparr>syncState := merge_updates (syncState s2) rest\<rparr>;
          browserStats = getBrowserStats now s3
      in (s3, ok (spread [(''success'', JBool True)] (stats_json browserStats))))"

text \<open>\<^verbatim>\<open>POST /claim-leader\<close>.\<close>

definition claim :: "int \<Rightarrow> string \<Rightarrow> int option \<Rightarrow> server \<Rightarrow> server" where
  "claim now browserId timestamp s =
     s\<lparr>syncState :=
         AList.update ''leaderHeartbeat'' (JNum (ts_or_now timestamp now))
           (AList.update ''leaderId'' (JStr browserId) (syncState s))\<rparr>"

definition claimed_response :: "int \<Rightarrow> string \<Rightarrow> server \<Rightarrow> response" where
  "claimed_response now browserId s =
     ok (spread [(''success'', JBool True), (''leaderId'', JStr browserId)]
           (stats_json (getBrowserStats now s)))"

definition post_claim_leader ::
  "int \<Rightarrow> string option \<Rightarrow> int option \<Rightarrow> json option \<Rightarrow> json option \<Rightarrow> server
     \<Rightarrow> server \<times> response" where
  "post_claim_leader now browserId timestamp force t s =
     (case browserId of
        None \<Rightarrow> (s, browserId_required)
      | Some b \<Rightarrow>
          if b = [] then (s, browserId_required)
          else
            let s1 = registerBrowser now b t s;
                currentLeaderShort = short_leader (syncState s1);
                timeSinceHeartbeat = js_minus now (map_of (syncState s1) ''leaderHeartbeat'')
            in if truthy force then
                 (let s2 = claim now b timestamp s1 in (s2, claimed_response now b s2))
               else if \<not> truthy (map_of (syncState s1) ''leaderId'')
                       \<or> js_gt timeSinceHeartbeat leaderTimeout then
                 (let s2 = claim now b timestamp s1 in (s2, claimed_response now b s2))
               else if map_of (syncState s1) ''leaderId'' = Some (JStr b) then
                 (let s2 = s1\<lparr>syncState :=
                             AList.update ''leaderHeartbeat'' (JNum (ts_or_now timestamp now))
                               (syncState s1)\<rparr>
                  in (s2, claimed_response now b s2))
               else
                 (s1, ok (spread
                            ([(''success'', JBool False)]
                             @ (case map_of (syncState s1) ''leaderId'' of
                                  None \<Rightarrow> []
                                | Some l \<Rightarrow> [(''leaderId'', l)])
                             @ [(''reason'',
                                 JStr (''Leader '' @ currentLeaderShort @ '' is active''))])
                            (stats_json (getBrowserStats now s1)))))"

text \<open>\<^verbatim>\<open>POST /heartbeat\<close>.\<close>

definition post_heartbeat ::
  "int \<Rightarrow> string option \<Rightarrow> json option \<Rightarrow> json option \<Rightarrow> server \<Rightarrow> server \<times> response" where
  "post_heartbeat now browserId t isLeader s =
     (case browserId of
        None \<Rightarrow> (s, browserId_required)
      | Some b \<Rightarrow>
          if b = [] then (s, browserId_required)
          else
            let s1 = registerBrowser now b t s;
                s2 = (if truthy isLeader \<and> map_of (syncState s1) ''leaderId'' = Some (JStr b)
                      then s1\<lparr>syncState :=
                             AList.update ''leaderHeartbeat'' (JNum now) (syncState s1)\<rparr>
                      else s1)
            in (s2, ok (spread [(''success'', JBool True)]
                          (stats_json (getBrowserStats now s2)))))"

definition get_browsers :: "int \<Rightarrow> server \<Rightarrow> response" where
  "get_browsers now s = ok (stats_json (getBrowserStats now s))"

text \<open>\<^verbatim>\<open>POST /reset\<close> assigns the literal of the initial state again.\<close>

definition post_reset :: "server \<Rightarrow> server \<times> response" where
  "post_reset s =
     (\<lparr>syncState = default_syncState, connectedBrowsers = []\<rparr>,
      ok [(''success'', JBool True), (''message'', JStr ''State reset'')])"

definition get_root :: "int \<Rightarrow> server \<Rightarrow> response" where
  "get_root now s =
     ok (spread
           ([(''name'', JStr ''TradingView Sync Server''),
             (''version'', JStr ''2.2.0''),
             (''endpoints'',
              JArr [JStr ''GET /health'', JStr ''GET /sync-state'', JStr ''POST /sync-state'',
                    JStr ''POST /claim-leader'', JStr ''POST /heartbeat'',
                    JStr ''GET /browsers'', JStr ''POST /reset'']),
             (''currentLeader'', JStr (short_leader (syncState s)))]
            @ (case map_of (syncState s) ''leaderHeartbeat'' of
                 None \<Rightarrow> []
               | Some h \<Rightarrow> [(''lastHeartbeat'', h)]))
           (stats_json (getBrowserStats now s)))"

section \<open>The server as a transition system\<close>

text \<open>
  Everything that can happen to the state: one of the requests, or a tick of the sweep
  timer. \<open>run\<close> lets a list of timed events happen in order.
\<close>

datatype request =
  GetHealth
  | GetSyncState "string option" "string option"
  | PostSyncState "string option" "int option" obj
  | ClaimLeader "string option" "int option" "json option" "json option"
  | Heartbeat "string option" "json option" "json option"
  | GetBrowsers
  | Reset
  | GetRoot

datatype event = Request request | Sweep

fun handle :: "int \<Rightarrow> request \<Rightarrow> server \<Rightarrow> server \<times> response" where
  "handle now GetHealth s = (s, get_health s)"
| "handle now (GetSyncState browserId t) s = get_sync_state now browserId t s"
| "handle now (PostSyncState leaderId leaderHeartbeat rest) s =
     post_sync_state now leaderId leaderHeartbeat rest s"
| "handle now (ClaimLeader browserId timestamp force t) s =
     post_claim_leader now browserId timestamp force t s"
| "handle now (Heartbeat browserId t isLeader) s = post_heartbeat now browserId t isLeader s"
| "handle now GetBrowsers s = (s, get_browsers now s)"
| "handle now Reset s = post_reset s"
| "handle now GetRoot s = (s, get_root now s)"

fun step :: "int \<Rightarrow> event \<Rightarrow> server \<Rightarrow> server" where
  "step now (Request r) s = fst (handle now r s)"
| "step now Sweep s = sweep now s"

fun run :: "(int \<times> event) list \<Rightarrow> server \<Rightarrow> server" where
  "run [] s = s"
| "run ((now, e) # es) s = run es (step now e s)"

section \<open>Reachable states\<close>

text \<open>
  What holds in every state the server reaches: the keys of \<^verbatim>\<open>connectedBrowsers\<close> are
  distinct (it is an object) and none is empty, \<^verbatim>\<open>leaderHeartbeat\<close> holds a number, and
  \<^verbatim>\<open>leaderId\<close> holds either \<^verbatim>\<open>null\<close>, with a heartbeat of 0, or a non-empty id, which is
  the id of a registered browser unless it is \<^verbatim>\<open>__proto__\<close>.
\<close>

definition consistent :: "server \<Rightarrow> bool" where
  "consistent s =
     (distinct (map fst (connectedBrowsers s))
      \<and> [] \<notin> fst ` set (connectedBrowsers s)
      \<and> (case map_of (syncState s) ''leaderHeartbeat'' of
            Some (JNum hb) \<Rightarrow>
              (case map_of (syncState s) ''leaderId'' of
                 Some JNull \<Rightarrow> hb = 0
               | Some (JStr l) \<Rightarrow>
                   l \<noteq> [] \<and> (l = ''__proto__'' \<or> l \<in> fst ` set (connectedBrowsers s))
               | _ \<Rightarrow> False)
          | _ \<Rightarrow> False))"

text \<open>The ids a sweep at \<open>now\<close> evicts from the given entries.\<close>

definition stale_ids :: "int \<Rightarrow> (string \<times> browser_info) list \<Rightarrow> string list" where
  "stale_ids now entries =
     map fst (filter (\<lambda>(k, info). now - lastSeen info > BROWSER_TIMEOUT) entries)"

text \<open>
  The heartbeat value an event carries: the client's timestamp when it is present and not
  0, else the server's time.
\<close>

fun stamp :: "int \<Rightarrow> event \<Rightarrow> int" where
  "stamp now (Request (ClaimLeader browserId timestamp force t)) = ts_or_now timestamp now"
| "stamp now (Request (PostSyncState leaderId leaderHeartbeat rest)) = ts_or_now leaderHeartbeat now"
| "stamp now e = now"

section \<open>Reading objects after a spread\<close>

lemma spread_other: "k \<notin> fst ` set b \<Longrightarrow> map_of (spread a b) k = map_of a k"
  by (induction a b rule: spread.induct) (auto simp: update_conv')

lemma spread_map_of:
  "distinct (map fst b) \<Longrightarrow>
   map_of (spread a b) k = (case map_of b k of Some v \<Rightarrow> Some v | None \<Rightarrow> map_of a k)"
proof (induction a b rule: spread.induct)
  case (1 a)
  then show ?case by simp
next
  case (2 a k' v b)
  then have notin: "k' \<notin> fst ` set b" by simp
  show ?case
  proof (cases "k = k'")
    case True
    with notin have "map_of b k = None" by (simp add: map_of_eq_None_iff)
    with 2 True show ?thesis by (simp add: update_conv')
  next
    case False
    with 2 show ?thesis by (simp add: update_conv' split: option.splits)
  qed
qed

lemma stats_json_keys:
  "fst ` set (stats_json x) = {''totalBrowsers'', ''browsersOnline'', ''browsersList''}"
  by (simp add: stats_json_def)

lemma state_updates_keys:
  "fst ` set (state_updates rest) = fst ` set rest - {''leaderId'', ''leaderHeartbeat''}"
  by (auto simp: state_updates_def image_iff)

lemma state_updates_distinct:
  "distinct (map fst rest) \<Longrightarrow> distinct (map fst (state_updates rest))"
  by (simp add: state_updates_def distinct_map_filter)

lemma state_updates_map_of:
  "k \<noteq> ''leaderId'' \<Longrightarrow> k \<noteq> ''leaderHeartbeat'' \<Longrightarrow>
   map_of (state_updates rest) k = map_of rest k"
  by (induction rest) (auto simp: state_updates_def)

lemma merge_updates_leaderId:
  "map_of (merge_updates st rest) ''leaderId'' = map_of st ''leaderId''"
  by (simp add: merge_updates_def spread_other state_updates_keys)

lemma merge_updates_leaderHeartbeat:
  "map_of (merge_updates st rest) ''leaderHeartbeat'' = map_of st ''leaderHeartbeat''"
  by (simp add: merge_updates_def spread_other state_updates_keys)

lemma merge_updates_field:
  "distinct (map fst rest) \<Longrightarrow> k \<noteq> ''leaderId'' \<Longrightarrow> k \<noteq> ''leaderHeartbeat'' \<Longrightarrow>
   map_of (merge_updates st rest) k =
     (case map_of rest k of Some v \<Rightarrow> Some v | None \<Rightarrow> map_of st k)"
  by (simp add: merge_updates_def spread_map_of state_updates_distinct state_updates_map_of)

section \<open>Presence touch and leadership assignment\<close>

lemma registerBrowser_syncState: "syncState (registerBrowser now b t s) = syncState s"
  by (simp add: registerBrowser_def)

lemma registerBrowser_same:
  "b \<noteq> ''__proto__'' \<Longrightarrow>
   map_of (connectedBrowsers (registerBrowser now b t s)) b =
     Some \<lparr>lastSeen = now, tf = js_or t (JStr ''5'')\<rparr>"
  by (simp add: registerBrowser_def update_conv')

lemma registerBrowser_proto: "registerBrowser now ''__proto__'' t s = s"
  by (simp add: registerBrowser_def)

lemma registerBrowser_other:
  "k \<noteq> b \<Longrightarrow>
   map_of (connectedBrowsers (registerBrowser now b t s)) k = map_of (connectedBrowsers s) k"
  by (simp add: registerBrowser_def update_conv')

lemma claim_leaderId: "map_of (syncState (claim now b ts s)) ''leaderId'' = Some (JStr b)"
  by (simp add: claim_def update_conv')

lemma claim_leaderHeartbeat:
  "map_of (syncState (claim now b ts s)) ''leaderHeartbeat'' = Some (JNum (ts_or_now ts now))"
  by (simp add: claim_def update_conv')

lemma claim_other:
  "k \<noteq> ''leaderId'' \<Longrightarrow> k \<noteq> ''leaderHeartbeat'' \<Longrightarrow>
   map_of (syncState (claim now b ts s)) k = map_of (syncState s) k"
  by (simp add: claim_def update_conv')

lemma claim_connectedBrowsers: "connectedBrowsers (claim now b ts s) = connectedBrowsers s"
  by (simp add: claim_def)

lemma claimed_response_success:
  "map_of (json_body (claimed_response now b s)) ''success'' = Some (JBool True)"
  by (simp add: claimed_response_def ok_def spread_other stats_json_keys)

lemma claimed_response_leaderId:
  "map_of (json_body (claimed_response now b s)) ''leaderId'' = Some (JStr b)"
  by (simp add: claimed_response_def ok_def spread_other stats_json_keys)

text \<open>The definitions a run of the server on concrete requests unfolds.\<close>

lemmas run_defs =
  post_claim_leader_def post_heartbeat_def post_sync_state_def get_sync_state_def post_reset_def
  registerBrowser_def claim_def claimed_response_def ok_def browserId_required_def
  initial_server_def default_syncState_def leaderTimeout_def BROWSER_TIMEOUT_def sweep_def
  merge_updates_def state_updates_def short_leader_def slice8_def Let_def

section \<open>Claiming leadership\<close>

text \<open>
  Claim C1. A \<^verbatim>\<open>POST /claim-leader\<close> with a non-empty \<^verbatim>\<open>browserId\<close> reports success exactly
  when \<^verbatim>\<open>force\<close> is truthy, or \<^verbatim>\<open>leaderId\<close> is empty, or \<^verbatim>\<open>now - leaderHeartbeat\<close> exceeds
  8000 ms, or the caller already is the leader. On success \<^verbatim>\<open>leaderId\<close> is the caller's id,
  \<^verbatim>\<open>leaderHeartbeat\<close> is the request's timestamp when there is one and it is not 0, and
  \<open>now\<close> otherwise, the response carries the caller's id, and no other property of
  \<^verbatim>\<open>syncState\<close> changes (so a re-claim refreshes the heartbeat only). Without success
  \<^verbatim>\<open>syncState\<close> is as it was.
\<close>

theorem claim_leader_outcome:
  assumes "b \<noteq> []"
    and "map_of (syncState s) ''leaderHeartbeat'' = Some (JNum hb)"
  shows "case post_claim_leader now (Some b) timestamp force t s of (s', r) \<Rightarrow>
           ((map_of (json_body r) ''success'' = Some (JBool True)) =
              (truthy force \<or> \<not> truthy (map_of (syncState s) ''leaderId'')
               \<or> now - hb > 8000 \<or> map_of (syncState s) ''leaderId'' = Some (JStr b)))
         \<and> (map_of (json_body r) ''success'' = Some (JBool True) \<longrightarrow>
              map_of (syncState s') ''leaderId'' = Some (JStr b)
              \<and> map_of (syncState s') ''leaderHeartbeat'' =
                  Some (JNum (case timestamp of
                                None \<Rightarrow> now
                              | Some ts \<Rightarrow> if ts = 0 then now else ts))
              \<and> map_of (json_body r) ''leaderId'' = Some (JStr b)
              \<and> (\<forall>k. k \<noteq> ''leaderId'' \<and> k \<noteq> ''leaderHeartbeat'' \<longrightarrow>
                    map_of (syncState s') k = map_of (syncState s) k))
         \<and> (map_of (json_body r) ''success'' \<noteq> Some (JBool True) \<longrightarrow>
              map_of (json_body r) ''success'' = Some (JBool False) \<and> syncState s' = syncState s)"
proof -
  have stored: "ts_or_now timestamp now =
                  (case timestamp of None \<Rightarrow> now | Some ts \<Rightarrow> if ts = 0 then now else ts)"
    by (cases timestamp) simp_all
  from assms show ?thesis
    unfolding stored [symmetric]
    by (auto simp: post_claim_leader_def Let_def claimed_response_success
        claimed_response_leaderId registerBrowser_syncState claim_leaderId claim_leaderHeartbeat
        claim_other leaderTimeout_def ok_def spread_other stats_json_keys update_conv'
        split: option.splits)
qed

theorem claim_leader_outcome_witness:
  "''B'' \<noteq> []
   \<and> map_of (syncState (run [(0, Request (ClaimLeader (Some ''A'') None None None))] initial_server))
        ''leaderHeartbeat'' = Some (JNum 0)
   \<and> (case post_claim_leader 8001 (Some ''B'') (Some 7777) None None
              (run [(0, Request (ClaimLeader (Some ''A'') None None None))] initial_server)
       of (s', r) \<Rightarrow>
         map_of (json_body r) ''success'' = Some (JBool True)
         \<and> map_of (syncState s') ''leaderId'' = Some (JStr ''B'')
         \<and> map_of (syncState s') ''leaderHeartbeat'' = Some (JNum 7777))"
proof -
  let ?s = "run [(0, Request (ClaimLeader (Some ''A'') None None None))] initial_server"
  have nonempty: "''B'' \<noteq> []" by simp
  have hb: "map_of (syncState ?s) ''leaderHeartbeat'' = Some (JNum 0)"
    by (simp add: run_defs)
  from claim_leader_outcome
         [OF nonempty hb, where now = 8001 and timestamp = "Some 7777" and force = None
            and t = None] hb
  show ?thesis by (auto split: prod.splits)
qed

text \<open>
  A claim without \<^verbatim>\<open>force\<close> that meets a different leader whose heartbeat is at most
  8000 ms old is answered with \<^verbatim>\<open>success: false\<close>, the current \<^verbatim>\<open>leaderId\<close> and the reason
  \<^verbatim>\<open>Leader <last 8 characters of the leader's id> is active\<close>, and \<^verbatim>\<open>syncState\<close> is unchanged.
  When the claimant's id is not \<^verbatim>\<open>__proto__\<close>, its presence record exists afterwards with
  \<^verbatim>\<open>lastSeen = now\<close>; no other presence record changes.
\<close>

lemma rejected_claim_response:
  assumes "b \<noteq> []" and "\<not> truthy force"
    and "map_of (syncState s) ''leaderId'' = Some (JStr l)" and "l \<noteq> []" and "l \<noteq> b"
    and "map_of (syncState s) ''leaderHeartbeat'' = Some (JNum hb)" and "now - hb \<le> 8000"
  shows "case post_claim_leader now (Some b) timestamp force t s of (s', r) \<Rightarrow>
           map_of (json_body r) ''success'' = Some (JBool False)
         \<and> map_of (json_body r) ''leaderId'' = Some (JStr l)
         \<and> map_of (json_body r) ''reason'' = Some (JStr (''Leader '' @ slice8 l @ '' is active''))
         \<and> syncState s' = syncState s
         \<and> (b \<noteq> ''__proto__'' \<longrightarrow>
              map_option lastSeen (map_of (connectedBrowsers s') b) = Some now)
         \<and> (\<forall>k. k \<noteq> b \<longrightarrow> map_of (connectedBrowsers s') k = map_of (connectedBrowsers s) k)"
  using assms
  by (simp add: post_claim_leader_def Let_def registerBrowser_syncState registerBrowser_same
      registerBrowser_other leaderTimeout_def short_leader_def
      ok_def spread_other stats_json_keys)

text \<open>
  Claim C6. A rejected claim is to create or refresh the claimant's presence record all the
  same. With \<open>A\<close> the leader since 0, the claim of the browser \<^verbatim>\<open>__proto__\<close> at 1000 is
  rejected with \<^verbatim>\<open>leaderId\<close> \<open>A\<close> and the reason, and \<^verbatim>\<open>leaderId\<close> and \<^verbatim>\<open>leaderHeartbeat\<close> are
  unchanged, but the registry holds no record of the claimant afterwards: it holds the
  record of \<open>A\<close> and nothing else.
\<close>

theorem rejected_claim_of_proto_leaves_no_record:
  "map_of (json_body (snd (post_claim_leader 1000 (Some ''__proto__'') None None None
      (run [(0, Request (ClaimLeader (Some ''A'') None None None))] initial_server))))
      ''success'' = Some (JBool False)
   \<and> map_of (json_body (snd (post_claim_leader 1000 (Some ''__proto__'') None None None
      (run [(0, Request (ClaimLeader (Some ''A'') None None None))] initial_server))))
      ''leaderId'' = Some (JStr ''A'')
   \<and> map_of (json_body (snd (post_claim_leader 1000 (Some ''__proto__'') None None None
      (run [(0, Request (ClaimLeader (Some ''A'') None None None))] initial_server))))
      ''reason'' = Some (JStr ''Leader A is active'')
   \<and> syncState (fst (post_claim_leader 1000 (Some ''__proto__'') None None None
      (run [(0, Request (ClaimLeader (Some ''A'') None None None))] initial_server))) =
     syncState (run [(0, Request (ClaimLeader (Some ''A'') None None None))] initial_server)
   \<and> map_of (connectedBrowsers (fst (post_claim_leader 1000 (Some ''__proto__'') None None None
      (run [(0, Request (ClaimLeader (Some ''A'') None None None))] initial_server))))
      ''__proto__'' = None
   \<and> connectedBrowsers (fst (post_claim_leader 1000 (Some ''__proto__'') None None None
      (run [(0, Request (ClaimLeader (Some ''A'') None None None))] initial_server))) =
     [(''A'', \<lparr>lastSeen = 0, tf = JStr ''5''\<rparr>)]"
  by (simp add: run_defs spread_other stats_json_keys)

theorem rejected_claim_of_proto_leaves_no_record_witness:
  "map_option lastSeen
     (map_of (connectedBrowsers (fst (post_claim_leader 1000 (Some ''__proto__'') None None None
        (run [(0, Request (ClaimLeader (Some ''A'') None None None))] initial_server))))
        ''__proto__'') \<noteq> Some 1000"
  using rejected_claim_of_proto_leaves_no_record by simp

text \<open>
  Claim C10. A timestamp of 0 counts as absent. A claim that succeeds with
  \<^verbatim>\<open>timestamp = 0\<close> stores \<open>now\<close> in \<^verbatim>\<open>leaderHeartbeat\<close>, and so does a \<^verbatim>\<open>POST /sync-state\<close> of
  the current leader with \<^verbatim>\<open>leaderHeartbeat = 0\<close>.
\<close>

theorem zero_timestamp_is_absent:
  "(b \<noteq> [] \<longrightarrow>
      (case post_claim_leader now (Some b) (Some 0) force t s of (s', r) \<Rightarrow>
         map_of (json_body r) ''success'' = Some (JBool True) \<longrightarrow>
         map_of (syncState s') ''leaderHeartbeat'' = Some (JNum now)))
   \<and> (l \<noteq> [] \<and> map_of (syncState s) ''leaderId'' = Some (JStr l) \<longrightarrow>
        (case post_sync_state now (Some l) (Some 0) rest s of (s', r) \<Rightarrow>
           map_of (syncState s') ''leaderHeartbeat'' = Some (JNum now)))"
  by (auto simp: post_claim_leader_def post_sync_state_def Let_def claimed_response_success
      registerBrowser_syncState claim_leaderHeartbeat merge_updates_leaderHeartbeat
      ok_def spread_other stats_json_keys update_conv' split: option.splits)

theorem zero_timestamp_is_absent_witness:
  "''A'' \<noteq> []
   \<and> map_of (syncState (run [(5, Request (ClaimLeader (Some ''A'') None None None))] initial_server))
        ''leaderId'' = Some (JStr ''A'')
   \<and> map_of (json_body (snd (post_claim_leader 42 (Some ''A'') (Some 0) None None
        (run [(5, Request (ClaimLeader (Some ''A'') None None None))] initial_server))))
        ''success'' = Some (JBool True)
   \<and> map_of (syncState (fst (post_claim_leader 42 (Some ''A'') (Some 0) None None
        (run [(5, Request (ClaimLeader (Some ''A'') None None None))] initial_server))))
        ''leaderHeartbeat'' = Some (JNum 42)
   \<and> map_of (syncState (fst (post_sync_state 42 (Some ''A'') (Some 0) [(''currentIndex'', JNum 3)]
        (run [(5, Request (ClaimLeader (Some ''A'') None None None))] initial_server))))
        ''leaderHeartbeat'' = Some (JNum 42)"
proof -
  let ?s = "run [(5, Request (ClaimLeader (Some ''A'') None None None))] initial_server"
  have a: "''A'' \<noteq> []" by simp
  have leader: "map_of (syncState ?s) ''leaderId'' = Some (JStr ''A'')"
    by (simp add: run_defs)
  have won: "map_of (json_body (snd (post_claim_leader 42 (Some ''A'') (Some 0) None None ?s)))
               ''success'' = Some (JBool True)"
    by (simp add: run_defs spread_other stats_json_keys)
  from zero_timestamp_is_absent
         [where b = "''A''" and l = "''A''" and s = ?s and now = 42 and force = None and t = None
            and rest = "[(''currentIndex'', JNum 3)]"]
       a leader won
  show ?thesis by (auto split: prod.splits)
qed

section \<open>The sweep and the invariant of reachable states\<close>

lemma sweep_loop_connectedBrowsers:
  "connectedBrowsers (sweep_loop now es s) =
     filter (\<lambda>(k, info). k \<notin> set (stale_ids now es)) (connectedBrowsers s)"
proof (induction now es s rule: sweep_loop.induct)
  case (1 now s)
  then show ?case by (simp add: stale_ids_def)
next
  case (2 now browserId info entries s)
  then show ?case
    by (auto simp: stale_ids_def Let_def AList.delete_eq intro!: filter_cong)
qed


lemma sweep_loop_syncState:
  "syncState (sweep_loop now es s) =
     (if \<exists>l \<in> set (stale_ids now es). map_of (syncState s) ''leaderId'' = Some (JStr l)
      then AList.update ''leaderHeartbeat'' (JNum 0) (AList.update ''leaderId'' JNull (syncState s))
      else syncState s)"
proof (induction now es s rule: sweep_loop.induct)
  case (1 now s)
  then show ?case by (simp add: stale_ids_def)
next
  case (2 now browserId info entries s)
  then show ?case
    by (auto simp: stale_ids_def Let_def update_conv')
qed

lemma distinct_filter_stale:
  assumes "distinct (map fst es)"
  shows "filter (\<lambda>(k, info). k \<notin> set (stale_ids now es)) es =
         filter (\<lambda>(k, info). \<not> (now - lastSeen info > BROWSER_TIMEOUT)) es"
proof (rule filter_cong [OF refl])
  fix e assume e: "e \<in> set es"
  obtain k info where ke: "e = (k, info)" by (cases e)
  have "k \<in> set (stale_ids now es) \<longleftrightarrow> now - lastSeen info > BROWSER_TIMEOUT"
  proof
    assume "k \<in> set (stale_ids now es)"
    then obtain info' where "(k, info') \<in> set es" "now - lastSeen info' > BROWSER_TIMEOUT"
      by (auto simp: stale_ids_def)
    moreover from this assms e ke have "info' = info"
      by (auto dest: eq_key_imp_eq_value)
    ultimately show "now - lastSeen info > BROWSER_TIMEOUT" by simp
  next
    assume "now - lastSeen info > BROWSER_TIMEOUT"
    with e ke show "k \<in> set (stale_ids now es)"
      by (force simp: stale_ids_def)
  qed
  with ke show "(case e of (k, info) \<Rightarrow> k \<notin> set (stale_ids now es)) =
                (case e of (k, info) \<Rightarrow> \<not> (now - lastSeen info > BROWSER_TIMEOUT))"
    by simp
qed


lemma consistent_iff:
  "consistent s \<longleftrightarrow>
     distinct (map fst (connectedBrowsers s)) \<and> [] \<notin> fst ` set (connectedBrowsers s)
     \<and> (\<exists>hb. map_of (syncState s) ''leaderHeartbeat'' = Some (JNum hb)
          \<and> (map_of (syncState s) ''leaderId'' = Some JNull \<and> hb = 0
              \<or> (\<exists>l. map_of (syncState s) ''leaderId'' = Some (JStr l) \<and> l \<noteq> []
                      \<and> (l = ''__proto__'' \<or> l \<in> fst ` set (connectedBrowsers s)))))"
proof (cases "map_of (syncState s) ''leaderHeartbeat''")
  case None
  then show ?thesis by (simp add: consistent_def)
next
  case hb: (Some h)
  show ?thesis
  proof (cases h)
    case (JNum n)
    show ?thesis
    proof (cases "map_of (syncState s) ''leaderId''")
      case None
      with hb JNum show ?thesis by (simp add: consistent_def)
    next
      case (Some v)
      with hb JNum show ?thesis by (cases v) (auto simp: consistent_def)
    qed
  qed (use hb in \<open>simp_all add: consistent_def\<close>)
qed

lemma consistent_initial: "consistent initial_server"
  by (simp add: consistent_def initial_server_def default_syncState_def)

lemma consistent_registerBrowser:
  "consistent s \<Longrightarrow> b \<noteq> [] \<Longrightarrow> consistent (registerBrowser now b t s)"
  unfolding consistent_iff
  by (auto simp: registerBrowser_def distinct_update dom_update)

lemma registerBrowser_key:
  "b = ''__proto__'' \<or> b \<in> fst ` set (connectedBrowsers (registerBrowser now b t s))"
  by (simp add: registerBrowser_def dom_update)

lemma consistent_claim:
  "consistent s \<Longrightarrow> b \<noteq> [] \<Longrightarrow>
   b = ''__proto__'' \<or> b \<in> fst ` set (connectedBrowsers s) \<Longrightarrow>
   consistent (claim now b ts s)"
  unfolding consistent_iff
  by (auto simp: claim_def update_conv')

lemma consistent_refresh:
  "consistent s \<Longrightarrow> map_of (syncState s) ''leaderId'' = Some (JStr b) \<Longrightarrow>
   consistent (s\<lparr>syncState := AList.update ''leaderHeartbeat'' (JNum n) (syncState s)\<rparr>)"
  unfolding consistent_iff
  by (auto simp: update_conv')

lemma consistent_merge:
  "consistent s \<Longrightarrow> consistent (s\<lparr>syncState := merge_updates (syncState s) rest\<rparr>)"
  unfolding consistent_iff
  by (simp add: merge_updates_leaderId merge_updates_leaderHeartbeat)

lemma consistent_sweep: "consistent s \<Longrightarrow> consistent (sweep now s)"
  unfolding consistent_iff sweep_def
  apply (simp add: sweep_loop_connectedBrowsers sweep_loop_syncState distinct_map_filter update_conv')
  apply (auto simp: image_iff)
  done

lemma consistent_post_sync_state:
  assumes "consistent s"
  shows "consistent (fst (post_sync_state now leaderId leaderHeartbeat rest s))"
proof -
  define s1 where
    "s1 = (case leaderId of
             None \<Rightarrow> s
           | Some l \<Rightarrow> if l \<noteq> [] then registerBrowser now l (map_of rest ''tf'') s else s)"
  define s2 where
    "s2 = (case leaderId of
             None \<Rightarrow> s1
           | Some l \<Rightarrow>
               if l \<noteq> [] \<and> map_of (syncState s1) ''leaderId'' = Some (JStr l)
               then s1\<lparr>syncState :=
                      AList.update ''leaderHeartbeat'' (JNum (ts_or_now leaderHeartbeat now))
                        (syncState s1)\<rparr>
               else s1)"
  have c1: "consistent s1"
    using assms by (auto simp: s1_def consistent_registerBrowser split: option.splits)
  have c2: "consistent s2"
    using c1 by (auto simp: s2_def intro: consistent_refresh split: option.splits)
  have "fst (post_sync_state now leaderId leaderHeartbeat rest s) =
          s2\<lparr>syncState := merge_updates (syncState s2) rest\<rparr>"
    by (simp only: post_sync_state_def s1_def s2_def Let_def fst_conv)
  with c2 show ?thesis by (simp add: consistent_merge)
qed

lemma consistent_handle: "consistent s \<Longrightarrow> consistent (fst (handle now r s))"
proof (cases r)
  case (GetSyncState browserId t)
  assume "consistent s"
  then show ?thesis using GetSyncState
    by (auto simp: get_sync_state_def Let_def consistent_registerBrowser split: option.splits)
next
  case (PostSyncState leaderId leaderHeartbeat rest)
  assume "consistent s"
  then show ?thesis using PostSyncState by (simp add: consistent_post_sync_state)
next
  case (ClaimLeader browserId timestamp force t)
  assume "consistent s"
  then show ?thesis using ClaimLeader
    by (auto simp: post_claim_leader_def Let_def
        intro!: consistent_claim consistent_refresh consistent_registerBrowser
          registerBrowser_key
        split: option.splits)
next
  case (Heartbeat browserId t isLeader)
  assume "consistent s"
  then show ?thesis using Heartbeat
    by (auto simp: post_heartbeat_def Let_def
        intro!: consistent_refresh consistent_registerBrowser
        split: option.splits)
next
  case Reset
  then show ?thesis using consistent_initial by (simp add: post_reset_def initial_server_def)
qed simp_all

lemma consistent_step: "consistent s \<Longrightarrow> consistent (step now e s)"
  by (cases e) (simp_all add: consistent_handle consistent_sweep)

lemma consistent_run: "consistent s \<Longrightarrow> consistent (run es s)"
  by (induction es s rule: run.induct) (simp_all add: consistent_step)

lemma consistent_reachable: "consistent (run es initial_server)"
  by (simp add: consistent_run consistent_initial)

lemma consistent_leader_registered:
  "consistent s \<Longrightarrow> truthy (map_of (syncState s) ''leaderId'') \<Longrightarrow>
   \<exists>l. map_of (syncState s) ''leaderId'' = Some (JStr l)
       \<and> (l = ''__proto__'' \<or> l \<in> fst ` set (connectedBrowsers s))"
  unfolding consistent_iff by auto

lemma sweep_connectedBrowsers:
  "consistent s \<Longrightarrow>
   connectedBrowsers (sweep now s) =
     filter (\<lambda>(k, info). \<not> (now - lastSeen info > 30000)) (connectedBrowsers s)"
  using distinct_filter_stale [of "connectedBrowsers s" now]
  by (simp add: sweep_def sweep_loop_connectedBrowsers consistent_iff BROWSER_TIMEOUT_def)

lemma stale_ids_iff:
  "distinct (map fst es) \<Longrightarrow>
   l \<in> set (stale_ids now es) \<longleftrightarrow> (\<exists>info. map_of es l = Some info \<and> now - lastSeen info > 30000)"
  by (auto simp: stale_ids_def BROWSER_TIMEOUT_def image_iff)

text \<open>
  In every state the server reaches from its initial state, a sweep at \<open>now\<close> keeps exactly
  the records with \<^verbatim>\<open>now - lastSeen <= 30000\<close>, in their order; when the leader's record is
  evicted, \<^verbatim>\<open>leaderId\<close> becomes \<^verbatim>\<open>null\<close> and \<^verbatim>\<open>leaderHeartbeat\<close> 0, and when it is kept
  \<^verbatim>\<open>syncState\<close> is as it was. In every reachable state, and so after every further request
  or sweep, a non-empty \<^verbatim>\<open>leaderId\<close> other than \<^verbatim>\<open>__proto__\<close> is the id of a registered
  record.
\<close>

lemma sweep_on_reachable:
  "let s = run es initial_server; s' = sweep now s in
     connectedBrowsers s' =
       filter (\<lambda>(k, info). \<not> (now - lastSeen info > 30000)) (connectedBrowsers s)
     \<and> (\<forall>l info. map_of (syncState s) ''leaderId'' = Some (JStr l)
            \<and> map_of (connectedBrowsers s) l = Some info \<longrightarrow>
            (if now - lastSeen info > 30000
             then map_of (syncState s') ''leaderId'' = Some JNull
                  \<and> map_of (syncState s') ''leaderHeartbeat'' = Some (JNum 0)
             else syncState s' = syncState s))
     \<and> (truthy (map_of (syncState s) ''leaderId'') \<longrightarrow>
          (\<exists>l. map_of (syncState s) ''leaderId'' = Some (JStr l)
               \<and> (l = ''__proto__'' \<or> l \<in> fst ` set (connectedBrowsers s))))"
proof -
  define s where "s = run es initial_server"
  have c: "consistent s" by (simp add: s_def consistent_reachable)
  then have d: "distinct (map fst (connectedBrowsers s))" by (simp add: consistent_iff)
  have evict: "connectedBrowsers (sweep now s) =
       filter (\<lambda>(k, info). \<not> (now - lastSeen info > 30000)) (connectedBrowsers s)"
    using c by (rule sweep_connectedBrowsers)
  have leader: "(if now - lastSeen info > 30000
             then map_of (syncState (sweep now s)) ''leaderId'' = Some JNull
                  \<and> map_of (syncState (sweep now s)) ''leaderHeartbeat'' = Some (JNum 0)
             else syncState (sweep now s) = syncState s)"
    if "map_of (syncState s) ''leaderId'' = Some (JStr l)"
      and "map_of (connectedBrowsers s) l = Some info" for l info
    using that d by (simp add: sweep_def sweep_loop_syncState stale_ids_iff update_conv')
  have r1: "truthy (map_of (syncState s) ''leaderId'') \<longrightarrow>
          (\<exists>l. map_of (syncState s) ''leaderId'' = Some (JStr l)
               \<and> (l = ''__proto__'' \<or> l \<in> fst ` set (connectedBrowsers s)))"
    using c by (blast dest: consistent_leader_registered)
  from evict leader r1 show ?thesis
    unfolding Let_def s_def [symmetric] by blast
qed

text \<open>
  Claim C3. After every operation and every sweep a non-empty \<^verbatim>\<open>leaderId\<close> is to have a
  record in the registry. The browser \<^verbatim>\<open>__proto__\<close> claims the vacant leadership at 0: it
  becomes the leader, and the registry is empty. A sweep at 100000 finds no record to evict
  and leaves \<^verbatim>\<open>__proto__\<close> the leader of an empty registry.
\<close>

theorem leader_proto_has_no_record:
  "map_of (syncState (run [(0, Request (ClaimLeader (Some ''__proto__'') None None None))]
      initial_server)) ''leaderId'' = Some (JStr ''__proto__'')
   \<and> truthy (map_of (syncState (run [(0, Request (ClaimLeader (Some ''__proto__'') None None None))]
      initial_server)) ''leaderId'')
   \<and> connectedBrowsers (run [(0, Request (ClaimLeader (Some ''__proto__'') None None None))]
      initial_server) = []
   \<and> map_of (syncState (run [(0, Request (ClaimLeader (Some ''__proto__'') None None None)),
                              (100000, Sweep)]
      initial_server)) ''leaderId'' = Some (JStr ''__proto__'')
   \<and> connectedBrowsers (run [(0, Request (ClaimLeader (Some ''__proto__'') None None None)),
                              (100000, Sweep)]
      initial_server) = []"
  by (simp add: run_defs)

theorem leader_proto_has_no_record_witness:
  "map_of (connectedBrowsers (run [(0, Request (ClaimLeader (Some ''__proto__'') None None None))]
      initial_server)) ''__proto__'' = None"
  using leader_proto_has_no_record by simp

lemma step_heartbeat:
  "consistent s \<Longrightarrow>
   map_of (syncState (step now e s)) ''leaderId'' = map_of (syncState s) ''leaderId'' \<Longrightarrow>
   map_of (syncState (step now e s)) ''leaderHeartbeat'' = map_of (syncState s) ''leaderHeartbeat''
   \<or> map_of (syncState (step now e s)) ''leaderHeartbeat'' = Some (JNum (stamp now e))"
proof (cases e)
  case Sweep
  assume "consistent s"
    and "map_of (syncState (step now e s)) ''leaderId'' = map_of (syncState s) ''leaderId''"
  with Sweep show ?thesis
    by (auto simp: sweep_def sweep_loop_syncState update_conv' split: if_splits)
next
  case (Request r)
  assume c: "consistent s"
    and same: "map_of (syncState (step now e s)) ''leaderId'' = map_of (syncState s) ''leaderId''"
  show ?thesis
  proof (cases r)
    case (GetSyncState browserId t)
    with Request show ?thesis
      by (auto simp: get_sync_state_def Let_def registerBrowser_syncState split: option.splits)
  next
    case (PostSyncState leaderId leaderHeartbeat rest)
    with Request show ?thesis
      by (auto simp: post_sync_state_def Let_def registerBrowser_syncState
          merge_updates_leaderHeartbeat update_conv' split: option.splits)
  next
    case (ClaimLeader browserId timestamp force t)
    with Request show ?thesis
      by (auto simp: post_claim_leader_def Let_def registerBrowser_syncState
          claim_leaderHeartbeat update_conv' split: option.splits)
  next
    case (Heartbeat browserId t isLeader)
    with Request show ?thesis
      by (auto simp: post_heartbeat_def Let_def registerBrowser_syncState
          update_conv' split: option.splits)
  next
    case Reset
    with Request c same show ?thesis
      by (auto simp: post_reset_def default_syncState_def consistent_iff)
  qed (use Request in simp_all)
qed

section \<open>The heartbeat clock\<close>

text \<open>
  The leader \<open>A\<close>, holding a heartbeat of 5000, claims again at 6000 with the timestamp
  1000: \<^verbatim>\<open>leaderId\<close> stays \<open>A\<close> and \<^verbatim>\<open>leaderHeartbeat\<close> goes back from 5000 to 1000.
\<close>

theorem heartbeat_monotone_counterexample:
  "map_of (syncState (run [(5000, Request (ClaimLeader (Some ''A'') None None None))] initial_server))
     ''leaderId'' = Some (JStr ''A'')
   \<and> map_of (syncState (run [(5000, Request (ClaimLeader (Some ''A'') None None None))] initial_server))
     ''leaderHeartbeat'' = Some (JNum 5000)
   \<and> map_of (syncState (step 6000 (Request (ClaimLeader (Some ''A'') (Some 1000) None None))
        (run [(5000, Request (ClaimLeader (Some ''A'') None None None))] initial_server)))
     ''leaderId'' = Some (JStr ''A'')
   \<and> map_of (syncState (step 6000 (Request (ClaimLeader (Some ''A'') (Some 1000) None None))
        (run [(5000, Request (ClaimLeader (Some ''A'') None None None))] initial_server)))
     ''leaderHeartbeat'' = Some (JNum 1000)
   \<and> (1000 :: int) < 5000"
  by (simp add: run_defs)

text \<open>
  Claim C2, amended. In every reachable state \<^verbatim>\<open>leaderHeartbeat\<close> is a number. An event that
  leaves \<^verbatim>\<open>leaderId\<close> as it is either leaves \<^verbatim>\<open>leaderHeartbeat\<close> as it is or sets it to the
  heartbeat value the event carries (\<open>stamp\<close>: the client's timestamp when present and not
  0, else the server's time); so \<^verbatim>\<open>leaderHeartbeat\<close> does not decrease when that value is
  not below the stored one. Whenever \<^verbatim>\<open>leaderId\<close> is empty after an event,
  \<^verbatim>\<open>leaderHeartbeat\<close> is 0.
\<close>

theorem heartbeat_monotone_amended:
  "let s = run es initial_server; s' = step now e s in
     \<exists>hb hb'. map_of (syncState s) ''leaderHeartbeat'' = Some (JNum hb)
       \<and> map_of (syncState s') ''leaderHeartbeat'' = Some (JNum hb')
       \<and> (map_of (syncState s') ''leaderId'' = map_of (syncState s) ''leaderId'' \<longrightarrow>
            (hb' = hb \<or> hb' = stamp now e) \<and> (hb \<le> stamp now e \<longrightarrow> hb \<le> hb'))
       \<and> (\<not> truthy (map_of (syncState s') ''leaderId'') \<longrightarrow> hb' = 0)"
proof -
  define s where "s = run es initial_server"
  define s' where "s' = step now e s"
  have c: "consistent s" by (simp add: s_def consistent_reachable)
  then have c': "consistent s'" by (simp add: s'_def consistent_step)
  from c obtain hb where hb: "map_of (syncState s) ''leaderHeartbeat'' = Some (JNum hb)"
    by (auto simp: consistent_iff)
  from c' obtain hb' where hb': "map_of (syncState s') ''leaderHeartbeat'' = Some (JNum hb')"
    and empty: "\<not> truthy (map_of (syncState s') ''leaderId'') \<longrightarrow> hb' = 0"
    by (auto simp: consistent_iff)
  have "hb' = hb \<or> hb' = stamp now e"
    if "map_of (syncState s') ''leaderId'' = map_of (syncState s) ''leaderId''"
    using step_heartbeat [OF c, of now e] that hb hb' by (auto simp: s'_def)
  then have "map_of (syncState s') ''leaderId'' = map_of (syncState s) ''leaderId'' \<longrightarrow>
            (hb' = hb \<or> hb' = stamp now e) \<and> (hb \<le> stamp now e \<longrightarrow> hb \<le> hb')"
    by auto
  with hb hb' empty show ?thesis
    unfolding Let_def s_def [symmetric] s'_def [symmetric] by blast
qed

theorem heartbeat_monotone_amended_witness:
  "map_of (syncState (run [(5000, Request (ClaimLeader (Some ''A'') None None None))] initial_server))
     ''leaderHeartbeat'' = Some (JNum 5000)
   \<and> map_of (syncState (step 6000 (Request (Heartbeat (Some ''A'') None (Some (JBool True))))
        (run [(5000, Request (ClaimLeader (Some ''A'') None None None))] initial_server)))
     ''leaderId'' =
     map_of (syncState (run [(5000, Request (ClaimLeader (Some ''A'') None None None))] initial_server))
     ''leaderId''
   \<and> 5000 \<le> stamp 6000 (Request (Heartbeat (Some ''A'') None (Some (JBool True))))
   \<and> (\<exists>hb'. map_of (syncState (step 6000 (Request (Heartbeat (Some ''A'') None (Some (JBool True))))
        (run [(5000, Request (ClaimLeader (Some ''A'') None None None))] initial_server)))
        ''leaderHeartbeat'' = Some (JNum hb') \<and> 5000 \<le> hb')
   \<and> \<not> truthy (map_of (syncState (step 40000 Sweep
        (run [(5000, Request (ClaimLeader (Some ''A'') None None None))] initial_server)))
        ''leaderId'')
   \<and> map_of (syncState (step 40000 Sweep
        (run [(5000, Request (ClaimLeader (Some ''A'') None None None))] initial_server)))
        ''leaderHeartbeat'' = Some (JNum 0)"
proof -
  define S where "S = run [(5000, Request (ClaimLeader (Some ''A'') None None None))] initial_server"
  define hbeat where "hbeat = Request (Heartbeat (Some ''A'') None (Some (JBool True)))"
  have hb: "map_of (syncState S) ''leaderHeartbeat'' = Some (JNum 5000)"
    by (simp add: S_def run_defs)
  have same: "map_of (syncState (step 6000 hbeat S)) ''leaderId'' = map_of (syncState S) ''leaderId''"
    by (simp add: S_def hbeat_def run_defs)
  have le: "5000 \<le> stamp 6000 hbeat"
    by (simp add: hbeat_def)
  have gone: "\<not> truthy (map_of (syncState (step 40000 Sweep S)) ''leaderId'')"
    by (simp add: S_def run_defs)
  from heartbeat_monotone_amended
         [where es = "[(5000, Request (ClaimLeader (Some ''A'') None None None))]"
            and now = 6000 and e = hbeat] hb same le
  have up: "\<exists>hb'. map_of (syncState (step 6000 hbeat S)) ''leaderHeartbeat'' = Some (JNum hb')
              \<and> 5000 \<le> hb'"
    unfolding Let_def S_def [symmetric] by auto
  from heartbeat_monotone_amended
         [where es = "[(5000, Request (ClaimLeader (Some ''A'') None None None))]"
            and now = 40000 and e = Sweep] gone
  have zero: "map_of (syncState (step 40000 Sweep S)) ''leaderHeartbeat'' = Some (JNum 0)"
    unfolding Let_def S_def [symmetric] by auto
  from hb same le up gone zero show ?thesis
    unfolding S_def hbeat_def by blast
qed

section \<open>Posting state\<close>

text \<open>
  Claim C4. After a \<^verbatim>\<open>POST /sync-state\<close> whose body is an object (its keys are distinct),
  every property of \<^verbatim>\<open>syncState\<close> other than \<^verbatim>\<open>leaderId\<close> and \<^verbatim>\<open>leaderHeartbeat\<close> has the
  value the body gives it, known to the default shape or not, and keeps its old value when
  the body does not mention it. \<^verbatim>\<open>leaderId\<close> is never changed. The merge itself
  (\<open>merge_updates\<close>) changes neither election field of any object; \<^verbatim>\<open>leaderHeartbeat\<close> changes
  only by the refresh that precedes the merge, when the caller is the current leader.
\<close>

theorem post_state_merges_payload_and_protects_election:
  assumes "distinct (map fst rest)"
  shows "case post_sync_state now leaderId leaderHeartbeat rest s of (s', r) \<Rightarrow>
           (\<forall>k. k \<noteq> ''leaderId'' \<and> k \<noteq> ''leaderHeartbeat'' \<longrightarrow>
              map_of (syncState s') k =
                (case map_of rest k of Some v \<Rightarrow> Some v | None \<Rightarrow> map_of (syncState s) k))
         \<and> map_of (syncState s') ''leaderId'' = map_of (syncState s) ''leaderId''
         \<and> map_of (syncState s') ''leaderHeartbeat'' =
             (if given leaderId \<and> map_of (syncState s) ''leaderId'' = map_option JStr leaderId
              then Some (JNum (ts_or_now leaderHeartbeat now))
              else map_of (syncState s) ''leaderHeartbeat'')
         \<and> map_of (merge_updates st rest) ''leaderId'' = map_of st ''leaderId''
         \<and> map_of (merge_updates st rest) ''leaderHeartbeat'' = map_of st ''leaderHeartbeat''
         \<and> map_of (json_body r) ''success'' = Some (JBool True)"
  using assms
  by (auto simp: post_sync_state_def Let_def registerBrowser_syncState merge_updates_leaderId
      merge_updates_leaderHeartbeat merge_updates_field update_conv' ok_def spread_other
      stats_json_keys split: option.splits)

theorem post_state_merges_payload_and_protects_election_witness:
  "distinct (map fst [(''leaderId'', JStr ''X''), (''leaderHeartbeat'', JNum 1),
                      (''currentIndex'', JNum 3), (''foo'', JStr ''x'')])
   \<and> map_of (syncState (run [(5, Request (ClaimLeader (Some ''A'') None None None))] initial_server))
        ''leaderId'' = Some (JStr ''A'')
   \<and> map_of (syncState (fst (post_sync_state 9 (Some ''B'') (Some 7)
          [(''leaderId'', JStr ''X''), (''leaderHeartbeat'', JNum 1),
           (''currentIndex'', JNum 3), (''foo'', JStr ''x'')]
          (run [(5, Request (ClaimLeader (Some ''A'') None None None))] initial_server))))
        ''leaderId'' = Some (JStr ''A'')
   \<and> map_of (syncState (fst (post_sync_state 9 (Some ''B'') (Some 7)
          [(''leaderId'', JStr ''X''), (''leaderHeartbeat'', JNum 1),
           (''currentIndex'', JNum 3), (''foo'', JStr ''x'')]
          (run [(5, Request (ClaimLeader (Some ''A'') None None None))] initial_server))))
        ''leaderHeartbeat'' = Some (JNum 5)
   \<and> map_of (syncState (fst (post_sync_state 9 (Some ''B'') (Some 7)
          [(''leaderId'', JStr ''X''), (''leaderHeartbeat'', JNum 1),
           (''currentIndex'', JNum 3), (''foo'', JStr ''x'')]
          (run [(5, Request (ClaimLeader (Some ''A'') None None None))] initial_server))))
        ''currentIndex'' = Some (JNum 3)
   \<and> map_of (syncState (fst (post_sync_state 9 (Some ''B'') (Some 7)
          [(''leaderId'', JStr ''X''), (''leaderHeartbeat'', JNum 1),
           (''currentIndex'', JNum 3), (''foo'', JStr ''x'')]
          (run [(5, Request (ClaimLeader (Some ''A'') None None None))] initial_server))))
        ''foo'' = Some (JStr ''x'')
   \<and> map_of (syncState (fst (post_sync_state 9 (Some ''B'') (Some 7)
          [(''leaderId'', JStr ''X''), (''leaderHeartbeat'', JNum 1),
           (''currentIndex'', JNum 3), (''foo'', JStr ''x'')]
          (run [(5, Request (ClaimLeader (Some ''A'') None None None))] initial_server))))
        ''rotateInterval'' = Some (JNum 7)"
proof -
  define S where "S = run [(5, Request (ClaimLeader (Some ''A'') None None None))] initial_server"
  define rest where
    "rest = [(''leaderId'', JStr ''X''), (''leaderHeartbeat'', JNum 1),
             (''currentIndex'', JNum 3), (''foo'', JStr ''x'')]"
  have d: "distinct (map fst rest)" by (simp add: rest_def)
  have leader: "map_of (syncState S) ''leaderId'' = Some (JStr ''A'')"
    and hb: "map_of (syncState S) ''leaderHeartbeat'' = Some (JNum 5)"
    and rot: "map_of (syncState S) ''rotateInterval'' = Some (JNum 7)"
    by (simp_all add: S_def run_defs)
  have r: "map_of rest ''currentIndex'' = Some (JNum 3)" "map_of rest ''foo'' = Some (JStr ''x'')"
    "map_of rest ''rotateInterval'' = None"
    by (simp_all add: rest_def)
  from post_state_merges_payload_and_protects_election
         [OF d, where now = 9 and leaderId = "Some ''B''" and leaderHeartbeat = "Some 7"
            and s = S and st = "[]"]
       d leader hb rot r
  show ?thesis
    unfolding S_def [symmetric] rest_def [symmetric]
    by (auto split: prod.splits)
qed

section \<open>Requests without a caller id\<close>

text \<open>
  A \<^verbatim>\<open>POST /sync-state\<close> without \<^verbatim>\<open>leaderId\<close> is answered with status 200 and
  \<^verbatim>\<open>success: true\<close>, and its payload is merged: \<^verbatim>\<open>currentIndex\<close> goes from 0 to 3.
\<close>

theorem post_state_without_caller_counterexample:
  "status_code (snd (post_sync_state 5 None None [(''currentIndex'', JNum 3)] initial_server)) = 200
   \<and> map_of (json_body (snd (post_sync_state 5 None None [(''currentIndex'', JNum 3)] initial_server)))
        ''success'' = Some (JBool True)
   \<and> map_of (syncState initial_server) ''currentIndex'' = Some (JNum 0)
   \<and> map_of (syncState (fst (post_sync_state 5 None None [(''currentIndex'', JNum 3)] initial_server)))
        ''currentIndex'' = Some (JNum 3)"
  by (simp add: run_defs getBrowserStats_def stats_json_def)

text \<open>
  Claim C5, amended. With a missing or empty \<^verbatim>\<open>browserId\<close>, \<^verbatim>\<open>POST /claim-leader\<close> and
  \<^verbatim>\<open>POST /heartbeat\<close> answer with status 400 and \<^verbatim>\<open>success: false\<close> and leave the whole state
  as it was. \<^verbatim>\<open>POST /sync-state\<close> does not require a caller: with a missing or empty
  \<^verbatim>\<open>leaderId\<close> it touches no presence record and neither election field, but it still
  merges the payload into \<^verbatim>\<open>syncState\<close> and answers with status 200 and \<^verbatim>\<open>success: true\<close>.
\<close>

theorem missing_caller_amended:
  assumes "\<not> given browserId"
  shows "post_claim_leader now browserId timestamp force t s = (s, browserId_required)
       \<and> post_heartbeat now browserId t isLeader s = (s, browserId_required)
       \<and> status_code browserId_required = 400
       \<and> map_of (json_body browserId_required) ''success'' = Some (JBool False)
       \<and> (case post_sync_state now browserId leaderHeartbeat rest s of (s', r) \<Rightarrow>
            connectedBrowsers s' = connectedBrowsers s
            \<and> map_of (syncState s') ''leaderId'' = map_of (syncState s) ''leaderId''
            \<and> map_of (syncState s') ''leaderHeartbeat'' = map_of (syncState s) ''leaderHeartbeat''
            \<and> syncState s' = merge_updates (syncState s) rest
            \<and> status_code r = 200
            \<and> map_of (json_body r) ''success'' = Some (JBool True))"
  using assms
  by (cases browserId)
    (auto simp: post_claim_leader_def post_heartbeat_def post_sync_state_def Let_def
      browserId_required_def merge_updates_leaderId merge_updates_leaderHeartbeat ok_def
      spread_other stats_json_keys)

theorem missing_caller_amended_witness:
  "\<not> given (Some [])
   \<and> post_claim_leader 5 (Some []) None (Some (JBool True)) None initial_server =
       (initial_server, browserId_required)
   \<and> post_heartbeat 5 (Some []) None None initial_server = (initial_server, browserId_required)
   \<and> connectedBrowsers (fst (post_sync_state 5 (Some []) None [(''currentIndex'', JNum 3)]
        initial_server)) = connectedBrowsers initial_server
   \<and> syncState (fst (post_sync_state 5 (Some []) None [(''currentIndex'', JNum 3)]
        initial_server)) = merge_updates (syncState initial_server) [(''currentIndex'', JNum 3)]"
proof -
  have g: "\<not> given (Some [])" by simp
  from missing_caller_amended
         [OF g, where now = 5 and timestamp = None and force = "Some (JBool True)" and t = None
            and isLeader = None and s = initial_server and leaderHeartbeat = None
            and rest = "[(''currentIndex'', JNum 3)]"] g
  show ?thesis by (auto split: prod.splits)
qed

section \<open>The presence snapshot\<close>

lemma secondsAgo_gt_10: "(secondsAgo_of now seen > 10) = (now - seen \<ge> 10500)"
proof -
  define a where "a = now - seen + 500"
  define q where "q = a div 1000"
  define r where "r = a mod 1000"
  have eq: "a = 1000 * q + r" by (simp add: q_def r_def)
  have r: "0 \<le> r" "r < 1000" by (simp_all add: r_def)
  have "(10 < q) = (11000 \<le> a)" using eq r by auto
  then show ?thesis by (simp add: secondsAgo_of_def a_def q_def)
qed


lemma status_of_three_tier:
  "status_of isLeader secondsAgo =
     (if isLeader then ''leader'' else if secondsAgo > 10 then ''warning'' else ''online'')"
  by (simp add: status_of_def)

lemma browser_row_status:
  "b_status (browser_row now st (i, info)) =
     (if map_of st ''leaderId'' = Some (JStr i) then ''leader''
      else if now - lastSeen info \<ge> 10500 then ''warning'' else ''online'')"
  using secondsAgo_gt_10 [of now "lastSeen info"]
  by (simp add: browser_row_def Let_def status_of_three_tier)

lemma browser_row_browserId: "b_browserId (browser_row now st (i, info)) = i"
  by (simp add: browser_row_def Let_def)

lemma browser_row_not_offline: "b_status (browser_row now st e) \<noteq> ''offline''"
  by (cases e) (simp add: browser_row_status)

text \<open>
  A record last seen 10200 ms ago, which is more than 10 seconds, has the status
  \<^verbatim>\<open>online\<close>: \<^verbatim>\<open>Math.round(10200 / 1000)\<close> is 10, and 10 is not above 10.
\<close>

theorem warning_threshold_counterexample:
  "connectedBrowsers (run [(0, Request (Heartbeat (Some ''C'') None None))] initial_server) =
     [(''C'', \<lparr>lastSeen = 0, tf = JStr ''5''\<rparr>)]
   \<and> (10200 :: int) - 0 > 10000
   \<and> map b_status (browsersList (getBrowserStats 10200
        (run [(0, Request (Heartbeat (Some ''C'') None None))] initial_server))) = [''online'']"
  by (simp add: run_defs getBrowserStats_def browser_row_def status_of_def secondsAgo_of_def)

text \<open>
  Claim C7, amended. \<^verbatim>\<open>getBrowserStats\<close> lists the registered records in their order; a
  record has the status \<^verbatim>\<open>leader\<close> when its id is \<^verbatim>\<open>leaderId\<close>, else \<^verbatim>\<open>warning\<close> when its age
  rounded to the nearest second exceeds 10, which is \<^verbatim>\<open>now - lastSeen >= 10500\<close>, else
  \<^verbatim>\<open>online\<close>. No record has the status \<^verbatim>\<open>offline\<close>, and \<^verbatim>\<open>browsersOnline\<close> and
  \<^verbatim>\<open>totalBrowsers\<close> both are the number of registered records.
\<close>

theorem snapshot_status_amended:
  "let st = getBrowserStats now s in
     map (\<lambda>b. (b_browserId b, b_status b)) (browsersList st) =
       map (\<lambda>(i, info).
              (i, if map_of (syncState s) ''leaderId'' = Some (JStr i) then ''leader''
                  else if now - lastSeen info \<ge> 10500 then ''warning''
                  else ''online''))
         (connectedBrowsers s)
     \<and> (\<forall>seen. (secondsAgo_of now seen > 10) = (now - seen \<ge> 10500))
     \<and> (\<forall>b \<in> set (browsersList st). b_status b \<noteq> ''offline'')
     \<and> browsersOnline st = length (connectedBrowsers s)
     \<and> totalBrowsers st = length (connectedBrowsers s)"
proof -
  define rows where "rows = map (browser_row now (syncState s)) (connectedBrowsers s)"
  have pairs: "map (\<lambda>b. (b_browserId b, b_status b)) rows =
       map (\<lambda>(i, info).
              (i, if map_of (syncState s) ''leaderId'' = Some (JStr i) then ''leader''
                  else if now - lastSeen info \<ge> 10500 then ''warning''
                  else ''online''))
         (connectedBrowsers s)"
    unfolding rows_def map_map
    by (rule map_cong [OF refl]) (auto simp only: o_def browser_row_status browser_row_browserId)
  have never: "\<forall>b \<in> set rows. b_status b \<noteq> ''offline''"
    by (auto simp: rows_def browser_row_not_offline)
  then have online: "filter (\<lambda>b. b_status b \<noteq> ''offline'') rows = rows"
    by simp
  have len: "length rows = length (connectedBrowsers s)"
    by (simp add: rows_def)
  have stats: "getBrowserStats now s =
      \<lparr>totalBrowsers = length rows, browsersOnline = length rows, browsersList = rows\<rparr>"
    by (simp add: getBrowserStats_def Let_def rows_def [symmetric] online)
  show ?thesis
    unfolding Let_def stats
    using pairs never len secondsAgo_gt_10 [of now] by simp
qed

theorem snapshot_status_amended_witness:
  "map (\<lambda>b. (b_browserId b, b_status b))
     (browsersList (getBrowserStats 10600
        (run [(0, Request (ClaimLeader (Some ''A'') None None None)),
              (0, Request (Heartbeat (Some ''B'') None None)),
              (5000, Request (Heartbeat (Some ''C'') None None))] initial_server))) =
     [(''A'', ''leader''), (''B'', ''warning''), (''C'', ''online'')]
   \<and> browsersOnline (getBrowserStats 10600
        (run [(0, Request (ClaimLeader (Some ''A'') None None None)),
              (0, Request (Heartbeat (Some ''B'') None None)),
              (5000, Request (Heartbeat (Some ''C'') None None))] initial_server)) = 3
   \<and> totalBrowsers (getBrowserStats 10600
        (run [(0, Request (ClaimLeader (Some ''A'') None None None)),
              (0, Request (Heartbeat (Some ''B'') None None)),
              (5000, Request (Heartbeat (Some ''C'') None None))] initial_server)) = 3"
proof -
  define S where
    "S = run [(0, Request (ClaimLeader (Some ''A'') None None None)),
              (0, Request (Heartbeat (Some ''B'') None None)),
              (5000, Request (Heartbeat (Some ''C'') None None))] initial_server"
  have cb: "connectedBrowsers S =
      [(''A'', \<lparr>lastSeen = 0, tf = JStr ''5''\<rparr>), (''B'', \<lparr>lastSeen = 0, tf = JStr ''5''\<rparr>),
       (''C'', \<lparr>lastSeen = 5000, tf = JStr ''5''\<rparr>)]"
    by (simp add: S_def run_defs)
  have leader: "map_of (syncState S) ''leaderId'' = Some (JStr ''A'')"
    by (simp add: S_def run_defs)
  from snapshot_status_amended [of 10600 S] cb leader
  show ?thesis
    unfolding S_def [symmetric] by (simp add: Let_def)
qed

section \<open>The presence touch\<close>

text \<open>
  A browser registered with the tag \<^verbatim>\<open>'15'\<close> and touched again without a tag has the tag
  \<^verbatim>\<open>'5'\<close>: the earlier tag is not kept.
\<close>

theorem touch_forgets_prior_tag_counterexample:
  "map_option tf (map_of (connectedBrowsers
      (registerBrowser 1 ''C'' (Some (JStr ''15'')) initial_server)) ''C'') = Some (JStr ''15'')
   \<and> map_option tf (map_of (connectedBrowsers
      (registerBrowser 2 ''C'' None
         (registerBrowser 1 ''C'' (Some (JStr ''15'')) initial_server))) ''C'') = Some (JStr ''5'')"
  by (simp add: registerBrowser_def initial_server_def)

text \<open>
  Claim C8, amended. \<^verbatim>\<open>registerBrowser\<close> has no failure. For an id other than
  \<^verbatim>\<open>__proto__\<close> it replaces the caller's record by one with \<^verbatim>\<open>lastSeen = now\<close> whose tag is
  the given tag when that is present and truthy, and the sentinel \<^verbatim>\<open>'5'\<close> otherwise,
  whatever tag the record had before. It changes no other record and not \<^verbatim>\<open>syncState\<close>,
  and doing it twice is doing it once.
\<close>

theorem touch_replaces_record:
  assumes "b \<noteq> ''__proto__''"
  shows "map_of (connectedBrowsers (registerBrowser now b t s)) b =
     Some \<lparr>lastSeen = now,
           tf = (case t of
                   None \<Rightarrow> JStr ''5''
                 | Some v \<Rightarrow> if truthy (Some v) then v else JStr ''5'')\<rparr>
   \<and> (\<forall>k. k \<noteq> b \<longrightarrow>
         map_of (connectedBrowsers (registerBrowser now b t s)) k = map_of (connectedBrowsers s) k)
   \<and> syncState (registerBrowser now b t s) = syncState s
   \<and> registerBrowser now b t (registerBrowser now b t s) = registerBrowser now b t s"
  using assms by (cases t) (simp_all add: registerBrowser_def update_conv')

theorem touch_replaces_record_witness:
  "map_of (connectedBrowsers (registerBrowser 2 ''C'' (Some (JStr ''15''))
      (registerBrowser 1 ''D'' None initial_server))) ''C'' =
     Some \<lparr>lastSeen = 2, tf = JStr ''15''\<rparr>
   \<and> ''D'' \<noteq> ''C'' \<and> ''C'' \<noteq> ''__proto__''
   \<and> map_of (connectedBrowsers (registerBrowser 2 ''C'' (Some (JStr ''15''))
      (registerBrowser 1 ''D'' None initial_server))) ''D'' =
     map_of (connectedBrowsers (registerBrowser 1 ''D'' None initial_server)) ''D''"
proof -
  have d: "''D'' \<noteq> ''C''" and c: "''C'' \<noteq> ''__proto__''" by simp_all
  from touch_replaces_record
         [OF c, of 2 "Some (JStr ''15'')" "registerBrowser 1 ''D'' None initial_server"] d c
  show ?thesis by simp
qed

section \<open>Reset\<close>

text \<open>
  A \<^verbatim>\<open>GET /sync-state\<close> that follows a reset and carries a \<^verbatim>\<open>browserId\<close> registers that
  browser before it takes the snapshot, and reports one registered client.
\<close>

theorem reset_then_get_state_counterexample:
  "map_of (json_body (snd (get_sync_state 5 (Some ''A'') None (fst (post_reset initial_server)))))
     ''totalBrowsers'' = Some (JNum 1)
   \<and> connectedBrowsers (fst (get_sync_state 5 (Some ''A'') None (fst (post_reset initial_server)))) =
       [(''A'', \<lparr>lastSeen = 5, tf = JStr ''5''\<rparr>)]"
  by (simp add: run_defs getBrowserStats_def stats_json_def)

text \<open>
  Claim C9, amended. \<^verbatim>\<open>POST /reset\<close>, from any state, sets \<^verbatim>\<open>leaderId\<close> to \<^verbatim>\<open>null\<close>,
  \<^verbatim>\<open>leaderHeartbeat\<close> to 0 and \<^verbatim>\<open>syncState\<close> to the default shape, and empties
  \<^verbatim>\<open>connectedBrowsers\<close>. A following \<^verbatim>\<open>GET /sync-state\<close> without a \<^verbatim>\<open>browserId\<close> (missing
  or empty) leaves that state as it is and returns exactly the default shape with zero
  registered clients.
\<close>

theorem reset_then_get_state_amended:
  "fst (post_reset s) = \<lparr>syncState = default_syncState, connectedBrowsers = []\<rparr>
   \<and> map_of (syncState (fst (post_reset s))) ''leaderId'' = Some JNull
   \<and> map_of (syncState (fst (post_reset s))) ''leaderHeartbeat'' = Some (JNum 0)
   \<and> syncState (fst (post_reset s)) =
       [(''leaderId'', JNull), (''leaderHeartbeat'', JNum 0), (''currentIndex'', JNum 0),
        (''rotateInterval'', JNum 7), (''fetchInterval'', JNum 120), (''colLInterval'', JNum 10),
        (''selectedFilters'', JArr [JStr ''Comfortable'']), (''filteredData'', JArr []),
        (''alertSettings'', JObj [])]
   \<and> (\<not> given browserId \<longrightarrow>
        get_sync_state now browserId t (fst (post_reset s)) =
          (fst (post_reset s),
           \<lparr>status_code = 200,
            json_body =
              [(''leaderId'', JNull), (''leaderHeartbeat'', JNum 0), (''currentIndex'', JNum 0),
               (''rotateInterval'', JNum 7), (''fetchInterval'', JNum 120),
               (''colLInterval'', JNum 10), (''selectedFilters'', JArr [JStr ''Comfortable'']),
               (''filteredData'', JArr []), (''alertSettings'', JObj []),
               (''totalBrowsers'', JNum 0), (''browsersOnline'', JNum 0),
               (''browsersList'', JArr [])]\<rparr>))"
  by (cases browserId)
    (simp_all add: post_reset_def get_sync_state_def default_syncState_def Let_def ok_def
      getBrowserStats_def stats_json_def)

theorem reset_then_get_state_amended_witness:
  "\<not> given None
   \<and> map_of (json_body (snd (get_sync_state 9 None None
        (fst (post_reset (run [(5, Request (ClaimLeader (Some ''A'') None None None))]
                initial_server)))))) ''totalBrowsers'' = Some (JNum 0)
   \<and> map_of (json_body (snd (get_sync_state 9 None None
        (fst (post_reset (run [(5, Request (ClaimLeader (Some ''A'') None None None))]
                initial_server)))))) ''leaderId'' = Some JNull
   \<and> connectedBrowsers (fst (get_sync_state 9 None None
        (fst (post_reset (run [(5, Request (ClaimLeader (Some ''A'') None None None))]
                initial_server))))) = []"
proof -
  define S where "S = run [(5, Request (ClaimLeader (Some ''A'') None None None))] initial_server"
  have g: "\<not> given None" by simp
  from reset_then_get_state_amended
         [where s = S and browserId = None and now = 9 and t = None] g
  show ?thesis
    unfolding S_def [symmetric] by (auto split: prod.splits)
qed

end
